theory Spec2Isabelle
  imports Main "HOL-Library.Sublist"
begin

section \<open>Molecule objects and the object store\<close>

text \<open>
  The notebook \<^verbatim>\<open>examples/conformer_energies/conformer_energies.ipynb\<close> works on
  \<^verbatim>\<open>Molecule\<close> objects. Python lists hold references to them, and the notebook
  changes the objects in place (\<^verbatim>\<open>add_conformer\<close>, \<^verbatim>\<open>molecule.name = ...\<close>,
  \<^verbatim>\<open>mol_copy._conformers = None\<close>). The store is therefore explicit: a list of object
  values, an object reference being an index into it. A new object is put at the end of the
  store, so its reference is the length of the store before the allocation.

  The type \<open>'g\<close> stands for the chemical graph of a molecule (atoms, bonds, connectivity)
  and \<open>'c\<close> for one set of coordinates.
\<close>

datatype error = IndexError | TypeError | NoReturn

record ('g, 'c) molecule =
  name :: string
  graph :: 'g
  conformers :: "'c list option"

type_synonym addr = nat

type_synonym ('g, 'c) heap = "('g, 'c) molecule list"

text \<open>
  Modelled from the spec: \<^verbatim>\<open>Molecule.__eq__\<close> is not part of the notebook. The data model
  of the specification says that equality of records is structural (same chemical graph) and
  not by name; the conformers play no part in it.
\<close>

definition mol_eq :: "('g, 'c) molecule \<Rightarrow> ('g, 'c) molecule \<Rightarrow> bool" where
  "mol_eq m1 m2 \<longleftrightarrow> graph m1 = graph m2"

text \<open>
  Modelled from the spec: \<^verbatim>\<open>Molecule.n_conformers\<close> is not part of the notebook. It is the
  number of conformers a record holds; a record whose \<^verbatim>\<open>_conformers\<close> is \<^verbatim>\<open>None\<close> holds
  none.
\<close>

definition n_conformers :: "('g, 'c) molecule \<Rightarrow> nat" where
  "n_conformers m = (case conformers m of None \<Rightarrow> 0 | Some cs \<Rightarrow> length cs)"

text \<open>
  Modelled from the spec: \<^verbatim>\<open>Molecule.add_conformer\<close> is not part of the notebook. It
  appends (a copy of) the coordinates to the record's ordered sequence of conformers, and
  starts that sequence when \<^verbatim>\<open>_conformers\<close> is \<^verbatim>\<open>None\<close>, which is how the notebook uses
  it after \<^verbatim>\<open>mol_copy._conformers = None\<close>.
\<close>

definition add_conformer :: "'c \<Rightarrow> ('g, 'c) molecule \<Rightarrow> ('g, 'c) molecule" where
  "add_conformer c m =
     m\<lparr>conformers := Some (case conformers m of None \<Rightarrow> [c] | Some cs \<Rightarrow> cs @ [c])\<rparr>"

text \<open>The same call through a reference: \<^verbatim>\<open>molecules[-1].add_conformer(conformer)\<close>.\<close>

definition heap_add_conformer :: "addr \<Rightarrow> 'c \<Rightarrow> ('g, 'c) heap \<Rightarrow> ('g, 'c) heap" where
  "heap_add_conformer a c h = h[a := add_conformer c (h ! a)]"

section \<open>Cell 2: loading and collating conformers\<close>

text \<open>
  \<^verbatim>\<open>Molecule.from_file\<close> returns either one molecule or a list of molecules. Lines 64-65
  of the notebook cast the former to a list:
  \<^verbatim>\<open>
  if type(loaded_molecules) is not list:
      loaded_molecules = [loaded_molecules]
  \<close>
\<close>

datatype loaded = Single addr | Listed "addr list"

fun cast_to_list :: "loaded \<Rightarrow> addr list" where
  "cast_to_list (Single a) = [a]"
| "cast_to_list (Listed as) = as"

text \<open>
  Lines 70-76, the collation:
  \<^verbatim>\<open>
  molecules = [loaded_molecules[0]]
  for molecule in loaded_molecules[1:]:
      if molecule == molecules[-1]:
          for conformer in molecule.conformers:
              molecules[-1].add_conformer(conformer)
      else:
          molecules.append(molecule)
  \<close>
  \<open>collate_loop\<close> is the outer \<^verbatim>\<open>for\<close>; its arguments are the store, the list
  \<^verbatim>\<open>molecules\<close> built so far and the records still to come. The inner \<^verbatim>\<open>for\<close> is the
  \<open>fold\<close>. Iterating over \<^verbatim>\<open>None\<close> raises \<^verbatim>\<open>TypeError\<close>. When \<^verbatim>\<open>molecule\<close> and
  \<^verbatim>\<open>molecules[-1]\<close> are one and the same object with at least one conformer, the inner loop
  appends to the very list it iterates over and never ends; that outcome is \<open>NoReturn\<close>.
  \<^verbatim>\<open>loaded_molecules[0]\<close> raises \<^verbatim>\<open>IndexError\<close> on an empty list.
\<close>

fun collate_loop ::
  "('g, 'c) heap \<Rightarrow> addr list \<Rightarrow> addr list \<Rightarrow> error + (('g, 'c) heap \<times> addr list)" where
  "collate_loop h molecules [] = Inr (h, molecules)"
| "collate_loop h molecules (a # rest) =
     (if mol_eq (h ! a) (h ! last molecules) then
        (case conformers (h ! a) of
           None \<Rightarrow> Inl TypeError
         | Some cs \<Rightarrow>
             if a = last molecules \<and> cs \<noteq> [] then Inl NoReturn
             else collate_loop (fold (heap_add_conformer (last molecules)) cs h) molecules rest)
      else collate_loop h (molecules @ [a]) rest)"

definition collate ::
  "('g, 'c) heap \<Rightarrow> addr list \<Rightarrow> error + (('g, 'c) heap \<times> addr list)" where
  "collate h loaded_molecules =
     (case loaded_molecules of
        [] \<Rightarrow> Inl IndexError
      | a # rest \<Rightarrow> collate_loop h [a] rest)"

text \<open>Lines 64-76 together: cast to a list, then collate.\<close>

definition load_and_collate ::
  "('g, 'c) heap \<Rightarrow> loaded \<Rightarrow> error + (('g, 'c) heap \<times> addr list)" where
  "load_and_collate h ld = collate h (cast_to_list ld)"

text \<open>
  Lines 78-79:
  \<^verbatim>\<open>
  n_molecules = len(molecules)
  n_conformers = sum([mol.n_conformers for mol in molecules])
  \<close>
\<close>

definition n_molecules :: "addr list \<Rightarrow> nat" where
  "n_molecules molecules = length molecules"


section \<open>The collation algorithm in the words of the specification\<close>

text \<open>
  The specification describes the collator on record values, with no store: initialise the
  output sequence with the first input record; for each subsequent record, if it is
  structurally equal to the last record currently in the output sequence, append all of its
  conformers to that record; otherwise append it as a new record. An empty input gives an
  empty output. \<open>spec_collate\<close> follows these words, to be compared with \<open>collate\<close>.
\<close>

definition conformer_list :: "('g, 'c) molecule \<Rightarrow> 'c list" where
  "conformer_list m = (case conformers m of None \<Rightarrow> [] | Some cs \<Rightarrow> cs)"

definition spec_step ::
  "('g, 'c) molecule list \<Rightarrow> ('g, 'c) molecule \<Rightarrow> ('g, 'c) molecule list" where
  "spec_step out r =
     (if mol_eq r (last out)
      then butlast out @ [fold add_conformer (conformer_list r) (last out)]
      else out @ [r])"

definition spec_collate :: "('g, 'c) molecule list \<Rightarrow> ('g, 'c) molecule list" where
  "spec_collate rs = (case rs of [] \<Rightarrow> [] | r # rest \<Rightarrow> foldl spec_step [r] rest)"


section \<open>Cell 4: minimising each conformer and writing the report\<close>

subsection \<open>Strings\<close>

text \<open>Python's \<^verbatim>\<open>str\<close> of a non-negative integer: its decimal digits.\<close>

fun str_nat :: "nat \<Rightarrow> string" where
  "str_nat n =
     (if n < 10 then [char_of (48 + n)]
      else str_nat (n div 10) @ [char_of (48 + n mod 10)])"

declare str_nat.simps [simp del]

text \<open>Python's \<^verbatim>\<open>sep.join(fields)\<close>.\<close>

fun join :: "string \<Rightarrow> string list \<Rightarrow> string" where
  "join sep [] = []"
| "join sep [x] = x"
| "join sep (x # y # ys) = x @ sep @ join sep (y # ys)"


definition newline :: char where
  "newline = CHR 0x0A"

definition comma :: char where
  "comma = CHR '',''"


subsection \<open>External collaborators\<close>

text \<open>
  The notebook delegates to the toolkit, to OpenMM and to RDKit. Their functions are
  parameters of the model, collected in one record:
  \<^item> \<open>hill_formula\<close>: \<^verbatim>\<open>Topology._networkx_to_hill_formula(molecule.to_networkx())\<close>;
  \<^item> \<open>new_simulation\<close>: lines 142-149, from \<^verbatim>\<open>molecule.to_topology()\<close> to
    \<^verbatim>\<open>openmm.app.Simulation(...)\<close>;
  \<^item> \<open>setPositions\<close>: \<^verbatim>\<open>simulation.context.setPositions(conformer)\<close>;
  \<^item> \<open>potential_energy\<close>: \<^verbatim>\<open>simulation.context.getState(getEnergy=True).getPotentialEnergy()\<close>;
  \<^item> \<open>minimizeEnergy\<close>: \<^verbatim>\<open>simulation.minimizeEnergy()\<close>;
  \<^item> \<open>positions\<close>: \<^verbatim>\<open>getState(getPositions=True).getPositions()\<close>, as the array
    of line 163;
  \<^item> \<open>AlignMolConformers\<close>: the list \<^verbatim>\<open>rmslist\<close> that
    \<^verbatim>\<open>rdMolAlign.AlignMolConformers(mol_copy.to_rdkit(), RMSlist=rmslist)\<close> fills;
  \<^item> \<open>fmt_energy\<close>: \<^verbatim>\<open>f'{x/unit.kilocalories_per_mole:.3f}'\<close>;
  \<^item> \<open>fmt_rms\<close>: \<^verbatim>\<open>f'{x:.3f}'\<close>.
  The type \<open>'h\<close> is the state of the simulation handle, \<open>'e\<close> an energy and \<open>'r\<close> a
  deviation (floating-point values, which the model never computes with).
\<close>

record ('g, 'c, 'h, 'e, 'r) collaborators =
  hill_formula :: "'g \<Rightarrow> string"
  new_simulation :: "('g, 'c) molecule \<Rightarrow> 'h"
  setPositions :: "'c \<Rightarrow> 'h \<Rightarrow> 'h"
  potential_energy :: "'h \<Rightarrow> 'e"
  minimizeEnergy :: "'h \<Rightarrow> 'h"
  positions :: "'h \<Rightarrow> 'c"
  AlignMolConformers :: "('g, 'c) molecule \<Rightarrow> 'r list"
  fmt_energy :: "'e \<Rightarrow> string"
  fmt_rms :: "'r \<Rightarrow> string"

subsection \<open>The world the notebook acts on\<close>

text \<open>
  Besides the object store, the report generator writes files and drives the simulation
  handle. \<open>files\<close> is the sequence of files written, oldest first, each with its path and
  its whole content (a later entry with the same path overwrites an earlier one);
  \<open>sim_calls\<close> is the sequence of calls made on the simulation handle. The \<^verbatim>\<open>print\<close>
  calls of the notebook only write to the console and are left out.
\<close>

datatype ('g, 'c) file_content = SDF "('g, 'c) molecule" | Text string

datatype 'c sim_call =
  SetPositions 'c
| GetState_energy
| MinimizeEnergy
| GetState_energy_positions

record ('g, 'c) world =
  objects :: "('g, 'c) heap"
  files :: "(string \<times> ('g, 'c) file_content) list"
  sim_calls :: "'c sim_call list"

text \<open>\<^verbatim>\<open>mol_copy._conformers = None\<close>\<close>

definition clear_conformers :: "addr \<Rightarrow> ('g, 'c) heap \<Rightarrow> ('g, 'c) heap" where
  "clear_conformers a h = h[a := (h ! a)\<lparr>conformers := None\<rparr>]"

text \<open>
  Modelled from the spec: the copy constructor \<^verbatim>\<open>Molecule(molecule)\<close> is not part of the
  notebook. It gives a new record with the same name, graph and conformers that shares
  nothing with the original (the notebook calls it a temporary copy to update for each
  minimization). The result is the reference of the new object and the new store.
\<close>

definition Molecule_copy :: "addr \<Rightarrow> ('g, 'c) heap \<Rightarrow> addr \<times> ('g, 'c) heap" where
  "Molecule_copy a h = (length h, h @ [h ! a])"

text \<open>
  The four calls the notebook makes on the simulation handle. Each changes or reads the
  state of the handle through the collaborator and is recorded in \<open>sim_calls\<close> at the
  moment it is made.
\<close>

definition call_setPositions ::
  "('g, 'c, 'h, 'e, 'r) collaborators \<Rightarrow> 'c \<Rightarrow> ('g, 'c) world \<times> 'h \<Rightarrow> ('g, 'c) world \<times> 'h" where
  "call_setPositions E c st =
     (case st of (w, sim) \<Rightarrow>
        (w\<lparr>sim_calls := sim_calls w @ [SetPositions c]\<rparr>, setPositions E c sim))"

definition call_getState_energy ::
  "('g, 'c, 'h, 'e, 'r) collaborators \<Rightarrow> ('g, 'c) world \<times> 'h \<Rightarrow> ('g, 'c) world \<times> 'e" where
  "call_getState_energy E st =
     (case st of (w, sim) \<Rightarrow>
        (w\<lparr>sim_calls := sim_calls w @ [GetState_energy]\<rparr>, potential_energy E sim))"

definition call_minimizeEnergy ::
  "('g, 'c, 'h, 'e, 'r) collaborators \<Rightarrow> ('g, 'c) world \<times> 'h \<Rightarrow> ('g, 'c) world \<times> 'h" where
  "call_minimizeEnergy E st =
     (case st of (w, sim) \<Rightarrow>
        (w\<lparr>sim_calls := sim_calls w @ [MinimizeEnergy]\<rparr>, minimizeEnergy E sim))"

definition call_getState_energy_positions ::
  "('g, 'c, 'h, 'e, 'r) collaborators \<Rightarrow> ('g, 'c) world \<times> 'h \<Rightarrow>
   ('g, 'c) world \<times> 'e \<times> 'c" where
  "call_getState_energy_positions E st =
     (case st of (w, sim) \<Rightarrow>
        (w\<lparr>sim_calls := sim_calls w @ [GetState_energy_positions]\<rparr>,
         potential_energy E sim, positions E sim))"

text \<open>
  \<^verbatim>\<open>mol_copy.to_file(path, file_format='sdf')\<close> writes the object as it is at that moment.
\<close>

definition to_file :: "addr \<Rightarrow> string \<Rightarrow> ('g, 'c) world \<Rightarrow> ('g, 'c) world" where
  "to_file a path w = w\<lparr>files := files w @ [(path, SDF (objects w ! a))]\<rparr>"

definition header :: "string list" where
  "header = [''Conformer'', ''Initial PE (kcal/mol)'', ''Minimized PE (kcal/mol)'',
             ''RMS between initial and minimized conformer (Angstrom)'']"

subsection \<open>The body of the loop over the conformers\<close>

text \<open>
  Lines 155-180, for one \<^verbatim>\<open>conformer_index, conformer\<close>:
  \<^verbatim>\<open>
  simulation.context.setPositions(conformer)
  orig_potential = simulation.context.getState(getEnergy=True).getPotentialEnergy()
  simulation.minimizeEnergy()
  min_state = simulation.context.getState(getEnergy=True, getPositions=True)
  min_potential = min_state.getPotentialEnergy()
  min_coords = min_state.getPositions()
  min_coords = np.array([ [atom.x, atom.y, atom.z] for atom in min_coords]) * unit.nanometer
  mol_copy._conformers = None
  mol_copy.add_conformer(conformer)
  mol_copy.add_conformer(min_coords)
  rdmol = mol_copy.to_rdkit()
  rmslist = []
  rdMolAlign.AlignMolConformers(rdmol, RMSlist=rmslist)
  minimization_rms = rmslist[0]
  mol_copy._conformers = None
  mol_copy.add_conformer(min_coords)
  mol_copy.to_file(f'{molecule.name}_conf{conformer_index+1}_minimized.sdf', file_format='sdf')
  output.append([str(conformer_index+1),
                 f'{orig_potential/unit.kilocalories_per_mole:.3f}',
                 f'{min_potential/unit.kilocalories_per_mole:.3f}',
                 f'{minimization_rms:.3f}'])
  \<close>
  The state of the loop is the world, the state of the simulation handle and the rows of
  \<^verbatim>\<open>output\<close>. \<^verbatim>\<open>rmslist[0]\<close> raises \<^verbatim>\<open>IndexError\<close> on an empty list.
\<close>

definition minimize_conformer ::
  "('g, 'c, 'h, 'e, 'r) collaborators \<Rightarrow> addr \<Rightarrow> addr \<Rightarrow> nat \<Rightarrow> 'c \<Rightarrow>
   ('g, 'c) world \<times> 'h \<times> string list list \<Rightarrow>
   error + (('g, 'c) world \<times> 'h \<times> string list list)" where
  "minimize_conformer E molecule mol_copy conformer_index conformer st =
     (case st of (w, simulation, output) \<Rightarrow>
      let (w1, sim1) = call_setPositions E conformer (w, simulation);
          (w2, orig_potential) = call_getState_energy E (w1, sim1);
          (w3, sim2) = call_minimizeEnergy E (w2, sim1);
          (w4, min_potential, min_coords) = call_getState_energy_positions E (w3, sim2);
          w5 = w4\<lparr>objects := clear_conformers mol_copy (objects w4)\<rparr>;
          w6 = w5\<lparr>objects := heap_add_conformer mol_copy conformer (objects w5)\<rparr>;
          w7 = w6\<lparr>objects := heap_add_conformer mol_copy min_coords (objects w6)\<rparr>;
          rmslist = AlignMolConformers E (objects w7 ! mol_copy)
      in case rmslist of
           [] \<Rightarrow> Inl IndexError
         | minimization_rms # _ \<Rightarrow>
             let w8 = w7\<lparr>objects := clear_conformers mol_copy (objects w7)\<rparr>;
                 w9 = w8\<lparr>objects := heap_add_conformer mol_copy min_coords (objects w8)\<rparr>;
                 w10 = to_file mol_copy
                         (name (objects w9 ! molecule) @ ''_conf'' @
                          str_nat (conformer_index + 1) @ ''_minimized.sdf'') w9;
                 row = [str_nat (conformer_index + 1), fmt_energy E orig_potential,
                        fmt_energy E min_potential, fmt_rms E minimization_rms]
             in Inr (w10, sim2, output @ [row]))"

text \<open>
  Line 154, \<^verbatim>\<open>for conformer_index, conformer in enumerate(molecule.conformers)\<close>: the index
  starts at 0 and an error in the body ends the loop.
\<close>

fun minimize_loop ::
  "('g, 'c, 'h, 'e, 'r) collaborators \<Rightarrow> addr \<Rightarrow> addr \<Rightarrow> nat \<Rightarrow> 'c list \<Rightarrow>
   ('g, 'c) world \<times> 'h \<times> string list list \<Rightarrow>
   error + (('g, 'c) world \<times> 'h \<times> string list list)" where
  "minimize_loop E molecule mol_copy conformer_index [] st = Inr st"
| "minimize_loop E molecule mol_copy conformer_index (conformer # rest) st =
     (case minimize_conformer E molecule mol_copy conformer_index conformer st of
        Inl e \<Rightarrow> Inl e
      | Inr st' \<Rightarrow> minimize_loop E molecule mol_copy (Suc conformer_index) rest st')"

subsection \<open>One molecule, and all of them\<close>

text \<open>
  Lines 136-186 for one \<^verbatim>\<open>molecule\<close>: the name is set to the hill formula when it is
  empty (lines 136-137), \<^verbatim>\<open>mol_copy = Molecule(molecule)\<close> puts a copy of the record into
  the store as a new object (line 140), the simulation is built (lines 142-149), the header
  row starts \<^verbatim>\<open>output\<close> (line 153), the loop runs, and the rows are written out:
  \<^verbatim>\<open>
  with open(f'{molecule.name}.csv', 'w') as of:
      for line in output:
          of.write(','.join(line)+'\n')
  \<close>
  Iterating over \<^verbatim>\<open>molecule.conformers\<close> raises \<^verbatim>\<open>TypeError\<close> when it is \<^verbatim>\<open>None\<close>.
  The result is the new world together with \<^verbatim>\<open>output\<close>.
\<close>

definition csv_text :: "string list list \<Rightarrow> string" where
  "csv_text output = concat (map (\<lambda>line. join [comma] line @ [newline]) output)"

definition generate_report ::
  "('g, 'c, 'h, 'e, 'r) collaborators \<Rightarrow> addr \<Rightarrow> ('g, 'c) world \<Rightarrow>
   error + (('g, 'c) world \<times> string list list)" where
  "generate_report E molecule w =
     (let h0 = objects w;
          h1 = (if name (h0 ! molecule) = []
                then h0[molecule := (h0 ! molecule)\<lparr>name := hill_formula E (graph (h0 ! molecule))\<rparr>]
                else h0);
          (mol_copy, h2) = Molecule_copy molecule h1;
          simulation = new_simulation E (h2 ! molecule);
          output = [header]
      in case conformers (h2 ! molecule) of
           None \<Rightarrow> Inl TypeError
         | Some cs \<Rightarrow>
             (case minimize_loop E molecule mol_copy 0 cs (w\<lparr>objects := h2\<rparr>, simulation, output) of
                Inl e \<Rightarrow> Inl e
              | Inr (w', simulation', output') \<Rightarrow>
                  Inr (w'\<lparr>files := files w' @
                             [(name (objects w' ! molecule) @ ''.csv'', Text (csv_text output'))]\<rparr>,
                       output')))"

text \<open>Line 134, \<^verbatim>\<open>for molecule in molecules\<close>; the result is the world after the last one.\<close>

fun generate_reports ::
  "('g, 'c, 'h, 'e, 'r) collaborators \<Rightarrow> addr list \<Rightarrow> ('g, 'c) world \<Rightarrow>
   error + ('g, 'c) world" where
  "generate_reports E [] w = Inr w"
| "generate_reports E (molecule # rest) w =
     (case generate_report E molecule w of
        Inl e \<Rightarrow> Inl e
      | Inr (w', output) \<Rightarrow> generate_reports E rest w')"

text \<open>
  The minimized geometries the handle gives for a sequence of conformers: each conformer is
  loaded into the handle as the previous minimization left it, minimized, and read back.
\<close>

fun minimized_geometries ::
  "('g, 'c, 'h, 'e, 'r) collaborators \<Rightarrow> 'h \<Rightarrow> 'c list \<Rightarrow> 'c list" where
  "minimized_geometries E simulation [] = []"
| "minimized_geometries E simulation (conformer # rest) =
     (let sim2 = minimizeEnergy E (setPositions E conformer simulation)
      in positions E sim2 # minimized_geometries E sim2 rest)"

section \<open>What the report generator is expected to produce\<close>

text \<open>
  The name under which the report of a record is written: lines 136-137 replace an empty
  name by the hill formula, any other name stays.
\<close>

definition report_name :: "('g, 'c, 'h, 'e, 'r) collaborators \<Rightarrow> ('g, 'c) molecule \<Rightarrow> string" where
  "report_name E r = (if name r = [] then hill_formula E (graph r) else name r)"

text \<open>
  The file written for the conformer with index \<open>j\<close> (counted from 0) whose minimized
  coordinates are \<open>mc\<close>: its path under the name \<open>nm\<close>, and as content the working copy
  \<open>cp\<close> holding \<open>mc\<close> as its only conformer.
\<close>

definition sdf_entry ::
  "string \<Rightarrow> ('g, 'c) molecule \<Rightarrow> nat \<times> 'c \<Rightarrow> string \<times> ('g, 'c) file_content" where
  "sdf_entry nm cp = (\<lambda>(j, mc).
     (nm @ ''_conf'' @ str_nat (Suc j) @ ''_minimized.sdf'', SDF (cp\<lparr>conformers := Some [mc]\<rparr>)))"

text \<open>The calls made on the simulation handle for one conformer, in order.\<close>

definition calls_for :: "'c \<Rightarrow> 'c sim_call list" where
  "calls_for c = [SetPositions c, GetState_energy, MinimizeEnergy, GetState_energy_positions]"

text \<open>
  A row of \<^verbatim>\<open>output\<close> for the conformer with index \<open>j\<close> (counted from 0): the 1-based
  index, two formatted energies and a formatted deviation.
\<close>

definition is_row :: "('g, 'c, 'h, 'e, 'r) collaborators \<Rightarrow> nat \<Rightarrow> string list \<Rightarrow> bool" where
  "is_row E j row \<longleftrightarrow>
     (\<exists>e1 e2 r. row = [str_nat (Suc j), fmt_energy E e1, fmt_energy E e2, fmt_rms E r])"

section \<open>Example inputs\<close>

text \<open>
  A store of three single-conformer records as a loader leaves them: two conformers of one
  molecule and one of another. Graphs are written as formulas and coordinates as numbers.
\<close>

definition example_heap :: "(string, nat) heap" where
  "example_heap =
     [\<lparr>name = ''ethanol'', graph = ''C2H6O'', conformers = Some [1]\<rparr>,
      \<lparr>name = ''ethanol'', graph = ''C2H6O'', conformers = Some [2]\<rparr>,
      \<lparr>name = ''methane'', graph = ''CH4'', conformers = Some [3]\<rparr>]"

text \<open>
  Collaborators small enough to compute with: the state of the handle is the loaded
  coordinate, its energy is that number, and minimization halves it. The aligner gives one
  deviation for each conformer after the first, as RDKit does.
\<close>

definition example_collaborators :: "(string, nat, nat, nat, nat) collaborators" where
  "example_collaborators =
     \<lparr>hill_formula = (\<lambda>g. g),
      new_simulation = (\<lambda>m. 0),
      setPositions = (\<lambda>c h. c),
      potential_energy = (\<lambda>h. h),
      minimizeEnergy = (\<lambda>h. h div 2),
      positions = (\<lambda>h. h),
      AlignMolConformers =
        (\<lambda>m. case conformers m of Some (c # cs) \<Rightarrow> map (\<lambda>d. c - d) cs | _ \<Rightarrow> []),
      fmt_energy = (\<lambda>e. str_nat e @ ''.000''),
      fmt_rms = (\<lambda>r. str_nat r @ ''.000'')\<rparr>"

text \<open>A world with one collated record that has no name and two conformers.\<close>

definition example_world :: "(string, nat) world" where
  "example_world =
     \<lparr>objects = [\<lparr>name = [], graph = ''C2H6O'', conformers = Some [8, 6]\<rparr>],
      files = [], sim_calls = []\<rparr>"

section \<open>Properties of the collator\<close>

subsection \<open>Adding conformers, in a record and through the store\<close>

lemma fold_add_conformer_graph [simp]: "graph (fold add_conformer cs m) = graph m"
  by (induction cs arbitrary: m) (simp_all add: add_conformer_def)

lemma fold_add_conformer_name [simp]: "name (fold add_conformer cs m) = name m"
  by (induction cs arbitrary: m) (simp_all add: add_conformer_def)

lemma n_conformers_add [simp]: "n_conformers (add_conformer c m) = Suc (n_conformers m)"
  by (simp add: add_conformer_def n_conformers_def split: option.splits)

lemma n_conformers_fold_add [simp]:
  "n_conformers (fold add_conformer cs m) = n_conformers m + length cs"
  by (induction cs arbitrary: m) simp_all

lemma conformer_list_add [simp]: "conformer_list (add_conformer c m) = conformer_list m @ [c]"
  by (simp add: add_conformer_def conformer_list_def split: option.splits)

lemma conformer_list_fold_add [simp]:
  "conformer_list (fold add_conformer cs m) = conformer_list m @ cs"
  by (induction cs arbitrary: m) simp_all

lemma length_fold_heap_add [simp]:
  "length (fold (heap_add_conformer t) cs h) = length h"
  by (induction cs arbitrary: h) (simp_all add: heap_add_conformer_def)

lemma fold_heap_add_other:
  "b \<noteq> t \<Longrightarrow> fold (heap_add_conformer t) cs h ! b = h ! b"
  by (induction cs arbitrary: h) (simp_all add: heap_add_conformer_def)

lemma fold_heap_add_same:
  "t < length h \<Longrightarrow> fold (heap_add_conformer t) cs h ! t = fold add_conformer cs (h ! t)"
  by (induction cs arbitrary: h) (simp_all add: heap_add_conformer_def)



lemma length_conformer_list [simp]: "length (conformer_list m) = n_conformers m"
  by (simp add: conformer_list_def n_conformers_def split: option.splits)

lemma map_butlast_last: "xs \<noteq> [] \<Longrightarrow> map f xs = map f (butlast xs) @ [f (last xs)]"
  by (induction xs) simp_all





lemma map_nth_fold_heap_add:
  assumes "ms \<noteq> []" and "distinct ms" and "last ms < length h"
  shows "map ((!) (fold (heap_add_conformer (last ms)) cs h)) ms =
         butlast (map ((!) h) ms) @ [fold add_conformer cs (h ! last ms)]"
proof -
  let ?h1 = "fold (heap_add_conformer (last ms)) cs h"
  have "last ms \<notin> set (butlast ms)"
    using assms(1,2) by (metis append_butlast_last_id distinct_append distinct.simps(2)
        disjoint_iff list.set_intros(1))
  then have eq: "map ((!) ?h1) (butlast ms) = map ((!) h) (butlast ms)"
    by (auto intro!: fold_heap_add_other)
  have "map ((!) ?h1) ms = map ((!) ?h1) (butlast ms) @ [?h1 ! last ms]"
    using assms(1) by (rule map_butlast_last)
  also have "\<dots> = map ((!) h) (butlast ms) @ [fold add_conformer cs (h ! last ms)]"
    using eq assms(3) by (simp add: fold_heap_add_same)
  also have "map ((!) h) (butlast ms) = butlast (map ((!) h) ms)"
    by (simp add: map_butlast)
  finally show ?thesis .
qed

lemma collate_loop_refines:
  assumes "ms \<noteq> []" and "distinct (ms @ rest)"
    and "\<forall>a\<in>set (ms @ rest). a < length h"
    and "\<forall>a\<in>set rest. conformers (h ! a) \<noteq> None"
  shows "\<exists>h' ms'. collate_loop h ms rest = Inr (h', ms') \<and> length h' = length h \<and>
      map ((!) h') ms' = foldl spec_step (map ((!) h) ms) (map ((!) h) rest) \<and>
      prefix ms ms' \<and> subseq ms' (ms @ rest) \<and>
      (\<forall>b. b \<notin> set ms' \<longrightarrow> h' ! b = h ! b) \<and>
      (\<forall>b. graph (h' ! b) = graph (h ! b) \<and> name (h' ! b) = name (h ! b))"
  using assms
proof (induction rest arbitrary: h ms)
  case Nil
  then show ?case by simp
next
  case (Cons a rest)
  let ?t = "last ms"
  have t_in: "?t \<in> set ms" using Cons.prems(1) by simp
  have a_ne: "a \<noteq> ?t" using Cons.prems(2) t_in by auto
  have t_lt: "?t < length h" using Cons.prems(3) t_in by auto
  have last_map: "last (map ((!) h) ms) = h ! ?t"
    using Cons.prems(1) by (simp add: last_map)
  show ?case
  proof (cases "mol_eq (h ! a) (h ! ?t)")
    case True
    from Cons.prems(4) obtain cs where cs: "conformers (h ! a) = Some cs" by auto
    let ?h1 = "fold (heap_add_conformer ?t) cs h"
    have run: "collate_loop h ms (a # rest) = collate_loop ?h1 ms rest"
      using True cs a_ne by simp
    have other: "?h1 ! b = h ! b" if "b \<noteq> ?t" for b
      using that by (rule fold_heap_add_other)
    have rest_ne: "b \<noteq> ?t" if "b \<in> set rest" for b
      using that Cons.prems(2) t_in by auto
    have p2: "distinct (ms @ rest)" using Cons.prems(2) by simp
    have p3: "\<forall>b\<in>set (ms @ rest). b < length ?h1" using Cons.prems(3) by simp
    have p4: "\<forall>b\<in>set rest. conformers (?h1 ! b) \<noteq> None"
      using Cons.prems(4) rest_ne other by simp
    from Cons.IH [OF Cons.prems(1) p2 p3 p4]
    obtain h' ms' where r: "collate_loop ?h1 ms rest = Inr (h', ms')"
      and len: "length h' = length ?h1"
      and ref: "map ((!) h') ms' = foldl spec_step (map ((!) ?h1) ms) (map ((!) ?h1) rest)"
      and pre: "prefix ms ms'" and sub: "subseq ms' (ms @ rest)"
      and same: "\<forall>b. b \<notin> set ms' \<longrightarrow> h' ! b = ?h1 ! b"
      and gn: "\<forall>b. graph (h' ! b) = graph (?h1 ! b) \<and> name (h' ! b) = name (?h1 ! b)"
      by blast
    have m_rest: "map ((!) ?h1) rest = map ((!) h) rest"
      using rest_ne other by simp
    have m_ms: "map ((!) ?h1) ms = butlast (map ((!) h) ms) @ [fold add_conformer cs (h ! ?t)]"
      using Cons.prems(1,2) t_lt by (simp add: map_nth_fold_heap_add)
    have step: "spec_step (map ((!) h) ms) (h ! a) = map ((!) ?h1) ms"
      using True cs last_map m_ms by (simp add: spec_step_def conformer_list_def)
    have ref': "map ((!) h') ms' = foldl spec_step (map ((!) h) ms) (map ((!) h) (a # rest))"
      using ref m_rest step by simp
    have "subseq (ms @ rest) (ms @ a # rest)"
      by (auto simp: subseq_append')
    with sub have sub': "subseq ms' (ms @ a # rest)"
      by (rule subseq_order.trans)
    have t_in': "?t \<in> set ms'" using pre t_in by (auto simp: prefix_def)
    have same': "\<forall>b. b \<notin> set ms' \<longrightarrow> h' ! b = h ! b"
      using same other t_in' by metis
    have gn1: "graph (?h1 ! b) = graph (h ! b) \<and> name (?h1 ! b) = name (h ! b)" for b
    proof (cases "b = ?t")
      case True
      then show ?thesis using t_lt by (simp add: fold_heap_add_same)
    next
      case False
      then show ?thesis by (simp add: other)
    qed
    have gn': "\<forall>b. graph (h' ! b) = graph (h ! b) \<and> name (h' ! b) = name (h ! b)"
      using gn gn1 by simp
    show ?thesis
      using run r len ref' pre sub' same' gn' by simp
  next
    case False
    have run: "collate_loop h ms (a # rest) = collate_loop h (ms @ [a]) rest"
      using False by simp
    have p1: "ms @ [a] \<noteq> []" by simp
    have p2: "distinct ((ms @ [a]) @ rest)" using Cons.prems(2) by simp
    have p3: "\<forall>b\<in>set ((ms @ [a]) @ rest). b < length h" using Cons.prems(3) by simp
    have p4: "\<forall>b\<in>set rest. conformers (h ! b) \<noteq> None" using Cons.prems(4) by simp
    from Cons.IH [OF p1 p2 p3 p4]
    obtain h' ms' where r: "collate_loop h (ms @ [a]) rest = Inr (h', ms')"
      and len: "length h' = length h"
      and ref: "map ((!) h') ms' = foldl spec_step (map ((!) h) (ms @ [a])) (map ((!) h) rest)"
      and pre: "prefix (ms @ [a]) ms'" and sub: "subseq ms' ((ms @ [a]) @ rest)"
      and same: "\<forall>b. b \<notin> set ms' \<longrightarrow> h' ! b = h ! b"
      and gn: "\<forall>b. graph (h' ! b) = graph (h ! b) \<and> name (h' ! b) = name (h ! b)"
      by blast
    have step: "spec_step (map ((!) h) ms) (h ! a) = map ((!) h) (ms @ [a])"
      using False last_map by (simp add: spec_step_def)
    have ref': "map ((!) h') ms' = foldl spec_step (map ((!) h) ms) (map ((!) h) (a # rest))"
      using ref step by simp
    have pre': "prefix ms ms'" using pre by (rule append_prefixD)
    show ?thesis
      using run r len ref' pre' sub same gn by simp
  qed
qed


lemma collate_refines:
  assumes "loaded \<noteq> []" and "distinct loaded"
    and "\<forall>a\<in>set loaded. a < length h"
    and "\<forall>a\<in>set loaded. conformers (h ! a) \<noteq> None"
  shows "\<exists>h' ms. collate h loaded = Inr (h', ms) \<and> length h' = length h \<and>
      map ((!) h') ms = spec_collate (map ((!) h) loaded) \<and>
      ms \<noteq> [] \<and> hd ms = hd loaded \<and> subseq ms loaded \<and>
      (\<forall>b. b \<notin> set ms \<longrightarrow> h' ! b = h ! b) \<and>
      (\<forall>b. graph (h' ! b) = graph (h ! b) \<and> name (h' ! b) = name (h ! b))"
proof -
  from assms(1) obtain a rest where l: "loaded = a # rest" by (cases loaded) auto
  have p2: "distinct ([a] @ rest)" using assms(2) l by simp
  have p3: "\<forall>b\<in>set ([a] @ rest). b < length h" using assms(3) l by simp
  have p4: "\<forall>b\<in>set rest. conformers (h ! b) \<noteq> None" using assms(4) l by simp
  from collate_loop_refines [OF _ p2 p3 p4]
  obtain h' ms where r: "collate_loop h [a] rest = Inr (h', ms)"
    and len: "length h' = length h"
    and ref: "map ((!) h') ms = foldl spec_step (map ((!) h) [a]) (map ((!) h) rest)"
    and pre: "prefix [a] ms" and sub: "subseq ms ([a] @ rest)"
    and same: "\<forall>b. b \<notin> set ms \<longrightarrow> h' ! b = h ! b"
    and gn: "\<forall>b. graph (h' ! b) = graph (h ! b) \<and> name (h' ! b) = name (h ! b)"
    by blast
  from pre have "ms \<noteq> [] \<and> hd ms = a" by (auto simp: prefix_def)
  then show ?thesis
    using r len ref sub same gn l by (simp add: collate_def spec_collate_def)
qed



subsection \<open>Conservation of conformers and order of the output\<close>





subsection \<open>The single pass and its two examples\<close>

text \<open>
  C2. The collator on the store computes what the single left-to-right pass of the
  specification (\<open>spec_collate\<close>) computes on record values: the output starts with the
  first input record, and each further record either gives its conformers to the last
  output record, when the two are structurally equal, or becomes a new output record.
  Consequently, for three separate single-conformer records \<open>A1\<close>, \<open>A2\<close>, \<open>B1\<close> with \<open>A1\<close>
  equal to \<open>A2\<close> and \<open>B1\<close> different, the input \<open>[A1, A2, B1]\<close> gives exactly the two
  records \<open>[A1, B1]\<close>, \<open>A1\<close> now holding both conformers, and the input \<open>[A1, B1, A2]\<close>
  gives the three records \<open>[A1, B1, A2]\<close> with the store unchanged.
\<close>

theorem collate_single_pass:
  assumes "distinct [a1, a2, b1]" and "a1 < length h" and "a2 < length h" and "b1 < length h"
    and "conformers (h ! a1) = Some [c1]" and "conformers (h ! a2) = Some [c2]"
    and "mol_eq (h ! a1) (h ! a2)" and "\<not> mol_eq (h ! b1) (h ! a1)"
  shows "(\<forall>loaded. loaded \<noteq> [] \<and> distinct loaded \<and>
            (\<forall>a\<in>set loaded. a < length h \<and> conformers (h ! a) \<noteq> None) \<longrightarrow>
            (\<exists>h' molecules. collate h loaded = Inr (h', molecules) \<and>
               map ((!) h') molecules = spec_collate (map ((!) h) loaded))) \<and>
         collate h [a1, a2, b1] =
           Inr (h[a1 := (h ! a1)\<lparr>conformers := Some [c1, c2]\<rparr>], [a1, b1]) \<and>
         collate h [a1, b1, a2] = Inr (h, [a1, b1, a2])"
proof -
  have general: "\<exists>h' molecules. collate h loaded = Inr (h', molecules) \<and>
      map ((!) h') molecules = spec_collate (map ((!) h) loaded)"
    if "loaded \<noteq> []" and "distinct loaded"
      and "\<forall>a\<in>set loaded. a < length h \<and> conformers (h ! a) \<noteq> None" for loaded
  proof -
    have "\<forall>a\<in>set loaded. a < length h" and "\<forall>a\<in>set loaded. conformers (h ! a) \<noteq> None"
      using that(3) by simp_all
    from collate_refines [OF that(1,2) this] show ?thesis by blast
  qed
  have merged: "collate h [a1, a2, b1] =
      Inr (h[a1 := (h ! a1)\<lparr>conformers := Some [c1, c2]\<rparr>], [a1, b1])"
    using assms
    by (simp add: collate_def mol_eq_def heap_add_conformer_def add_conformer_def)
  have apart: "collate h [a1, b1, a2] = Inr (h, [a1, b1, a2])"
    using assms by (simp add: collate_def mol_eq_def)
  from general merged apart show ?thesis by blast
qed

text \<open>The example store satisfies the hypotheses of C2.\<close>

theorem collate_single_pass_witness:
  "collate example_heap [0, 1, 2] =
     Inr (example_heap[0 := (example_heap ! 0)\<lparr>conformers := Some [1, 2]\<rparr>], [0, 2]) \<and>
   collate example_heap [0, 2, 1] = Inr (example_heap, [0, 2, 1]) \<and>
   (\<exists>h' molecules. collate example_heap [0, 1, 2] = Inr (h', molecules) \<and>
      map ((!) h') molecules = spec_collate (map ((!) example_heap) [0, 1, 2]))"
proof -
  have p: "distinct [0 :: addr, 1, 2]" "0 < length example_heap" "1 < length example_heap"
    "2 < length example_heap" "conformers (example_heap ! 0) = Some [1]"
    "conformers (example_heap ! 1) = Some [2]"
    "mol_eq (example_heap ! 0) (example_heap ! 1)"
    "\<not> mol_eq (example_heap ! 2) (example_heap ! 0)"
    by (simp_all add: example_heap_def mol_eq_def)
  note t = collate_single_pass [OF p]
  from t have merged: "collate example_heap [0, 1, 2] =
      Inr (example_heap[0 := (example_heap ! 0)\<lparr>conformers := Some [1, 2]\<rparr>], [0, 2])"
    by simp
  from t have apart: "collate example_heap [0, 2, 1] = Inr (example_heap, [0, 2, 1])"
    by simp
  from t have "[0, 1, 2] \<noteq> [] \<and> distinct [0 :: addr, 1, 2] \<and>
      (\<forall>a\<in>set [0, 1, 2]. a < length example_heap \<and> conformers (example_heap ! a) \<noteq> None) \<longrightarrow>
      (\<exists>h' molecules. collate example_heap [0, 1, 2] = Inr (h', molecules) \<and>
         map ((!) h') molecules = spec_collate (map ((!) example_heap) [0, 1, 2]))"
    by blast
  then have general: "\<exists>h' molecules. collate example_heap [0, 1, 2] = Inr (h', molecules) \<and>
      map ((!) h') molecules = spec_collate (map ((!) example_heap) [0, 1, 2])"
    by (simp add: example_heap_def)
  from merged apart general show ?thesis by blast
qed

subsection \<open>A single loaded molecule\<close>

text \<open>
  C8. When the loader returns a single record instead of a list, lines 64-65 wrap it into
  a one-element list before collation: the result is the same as for the one-element list,
  namely one output record, the record itself, with the store unchanged.
\<close>

theorem single_molecule_cast:
  "load_and_collate h (Single a) = load_and_collate h (Listed [a]) \<and>
   load_and_collate h (Single a) = Inr (h, [a]) \<and> n_molecules [a] = 1"
  by (simp add: load_and_collate_def collate_def n_molecules_def)

subsection \<open>Collation of an empty input\<close>

text \<open>
  C3 (as amended). Given an empty input sequence the collator returns no output sequence:
  \<^verbatim>\<open>loaded_molecules[0]\<close> raises \<^verbatim>\<open>IndexError\<close>, whatever the store holds. The same
  happens when the empty list comes from the loader through the cast of lines 64-65.
\<close>

theorem collate_empty_raises:
  "collate h [] = Inl IndexError \<and> load_and_collate h (Listed []) = Inl IndexError"
  by (simp add: collate_def load_and_collate_def)

text \<open>
  The claim C3 as it was stated (an empty output sequence and no error) fails on the empty
  store with the empty input.
\<close>

theorem collate_empty_not_empty_output:
  "collate ([] :: (nat, nat) heap) [] \<noteq> Inr ([], [])"
  by (simp add: collate_def)

section \<open>Properties of the report generator\<close>

subsection \<open>Decimal digits, joining and splitting\<close>

lemma of_char_digit: "d < 10 \<Longrightarrow> (of_char (char_of (48 + d :: nat)) :: nat) = 48 + d"
  by simp

lemma of_char_comma: "(of_char comma :: nat) = 44"
  by (simp add: comma_def)

lemma of_char_newline: "(of_char newline :: nat) = 10"
  by (simp add: newline_def)

lemma digit_not_comma: "d < 10 \<Longrightarrow> char_of (48 + d :: nat) \<noteq> comma"
proof
  assume d: "d < 10" and eq: "char_of (48 + d) = comma"
  have "(of_char (char_of (48 + d)) :: nat) = of_char comma" by (simp only: eq)
  then have "48 + d = (44 :: nat)" by (simp only: of_char_digit [OF d] of_char_comma)
  then show False by arith
qed

lemma digit_not_newline: "d < 10 \<Longrightarrow> char_of (48 + d :: nat) \<noteq> newline"
proof
  assume d: "d < 10" and eq: "char_of (48 + d) = newline"
  have "(of_char (char_of (48 + d)) :: nat) = of_char newline" by (simp only: eq)
  then have "48 + d = (10 :: nat)" by (simp only: of_char_digit [OF d] of_char_newline)
  then show False by arith
qed

lemma str_nat_digits:
  "\<forall>ch\<in>set (str_nat n). \<exists>d::nat. d < 10 \<and> ch = char_of (48 + d)"
proof (induction n rule: str_nat.induct)
  case (1 n)
  show ?case
  proof (cases "n < 10")
    case True
    then have eq: "str_nat n = [char_of (48 + n)]" by (subst str_nat.simps) simp
    show ?thesis
    proof
      fix ch
      assume "ch \<in> set (str_nat n)"
      then have "ch = char_of (48 + n)" by (simp add: eq)
      then show "\<exists>d::nat. d < 10 \<and> ch = char_of (48 + d)"
        using True by blast
    qed
  next
    case False
    then have eq: "str_nat n = str_nat (n div 10) @ [char_of (48 + n mod 10)]"
      by (subst str_nat.simps) simp
    have "n mod 10 < 10" by simp
    then have lst: "\<exists>d::nat. d < 10 \<and> char_of (48 + n mod 10) = (char_of (48 + d) :: char)"
      by blast
    show ?thesis
    proof
      fix ch
      assume "ch \<in> set (str_nat n)"
      then have "ch \<in> set (str_nat (n div 10)) \<or> ch = char_of (48 + n mod 10)"
        unfolding eq by auto
      then show "\<exists>d::nat. d < 10 \<and> ch = char_of (48 + d)"
        using "1.IH" [OF False] lst by blast
    qed
  qed
qed

lemma comma_notin_str_nat [simp]: "comma \<notin> set (str_nat n)"
proof
  assume "comma \<in> set (str_nat n)"
  with str_nat_digits [of n] obtain d :: nat where d: "d < 10" and eq: "comma = char_of (48 + d)"
    by blast
  from eq have "char_of (48 + d) = comma" by (rule sym)
  with digit_not_comma [OF d] show False by (rule notE)
qed

lemma newline_notin_str_nat [simp]: "newline \<notin> set (str_nat n)"
proof
  assume "newline \<in> set (str_nat n)"
  with str_nat_digits [of n] obtain d :: nat where d: "d < 10" and eq: "newline = char_of (48 + d)"
    by blast
  from eq have "char_of (48 + d) = newline" by (rule sym)
  with digit_not_newline [OF d] show False by (rule notE)
qed









lemma str_nat_nonempty [simp]: "str_nat n \<noteq> []"
  by (subst str_nat.simps) simp






subsection \<open>The loop over the conformers\<close>

lemmas call_defs =
  call_setPositions_def call_getState_energy_def call_minimizeEnergy_def
  call_getState_energy_positions_def to_file_def

lemma minimize_conformer_step:
  assumes k: "k < length (objects w)" and mk: "m \<noteq> k"
    and al: "\<forall>x. n_conformers x = 2 \<longrightarrow> AlignMolConformers E x \<noteq> []"
    and s1: "sim1 = setPositions E c sim" and s2: "sim2 = minimizeEnergy E sim1"
    and mc: "mc = positions E sim2"
  shows "\<exists>r. minimize_conformer E m k i c (w, sim, out) =
     Inr (w\<lparr>objects := (objects w)[k := (objects w ! k)\<lparr>conformers := Some [mc]\<rparr>],
            files := files w @
              [(name (objects w ! m) @ ''_conf'' @ str_nat (Suc i) @ ''_minimized.sdf'',
                SDF ((objects w ! k)\<lparr>conformers := Some [mc]\<rparr>))],
            sim_calls := sim_calls w @
              [SetPositions c, GetState_energy, MinimizeEnergy, GetState_energy_positions]\<rparr>,
          sim2,
          out @ [[str_nat (Suc i), fmt_energy E (potential_energy E sim1),
                  fmt_energy E (potential_energy E sim2), fmt_rms E r]])"
proof -
  let ?h1 = "heap_add_conformer k mc (heap_add_conformer k c (clear_conformers k (objects w)))"
  have h1k: "?h1 ! k = (objects w ! k)\<lparr>conformers := Some [c, mc]\<rparr>"
    using k by (simp add: heap_add_conformer_def clear_conformers_def add_conformer_def)
  have "n_conformers (?h1 ! k) = 2"
    by (simp add: h1k n_conformers_def)
  with al have "AlignMolConformers E (?h1 ! k) \<noteq> []" by blast
  then obtain r rs where r: "AlignMolConformers E (?h1 ! k) = r # rs"
    by (cases "AlignMolConformers E (?h1 ! k)") auto
  let ?h2 = "heap_add_conformer k mc (clear_conformers k ?h1)"
  have h2: "?h2 = (objects w)[k := (objects w ! k)\<lparr>conformers := Some [mc]\<rparr>]"
    using k by (simp add: heap_add_conformer_def clear_conformers_def add_conformer_def)
  have h2k: "?h2 ! k = (objects w ! k)\<lparr>conformers := Some [mc]\<rparr>"
    using k by (simp add: h2)
  have h2m: "?h2 ! m = objects w ! m"
    using mk by (simp add: h2)
  have "minimize_conformer E m k i c (w, sim, out) =
     Inr (w\<lparr>objects := ?h2,
            files := files w @
              [(name (?h2 ! m) @ ''_conf'' @ str_nat (Suc i) @ ''_minimized.sdf'',
                SDF (?h2 ! k))],
            sim_calls := sim_calls w @
              [SetPositions c, GetState_energy, MinimizeEnergy, GetState_energy_positions]\<rparr>,
          sim2,
          out @ [[str_nat (Suc i), fmt_energy E (potential_energy E sim1),
                  fmt_energy E (potential_energy E sim2), fmt_rms E r]])"
    unfolding minimize_conformer_def call_defs Let_def using r s1 s2 mc by simp
  then show ?thesis
    unfolding h2k h2m unfolding h2 by blast
qed

lemma minimize_conformer_frame:
  assumes "minimize_conformer E m k i c st = Inr st'" and "b \<noteq> k"
  shows "objects (fst st') ! b = objects (fst st) ! b"
proof -
  obtain w sim out where st: "st = (w, sim, out)" by (cases st) auto
  show ?thesis
    using assms unfolding st minimize_conformer_def call_defs Let_def
    by (auto simp: heap_add_conformer_def clear_conformers_def split: list.splits)
qed

lemma length_minimized_geometries [simp]:
  "length (minimized_geometries E sim cs) = length cs"
  by (induction cs arbitrary: sim) (simp_all add: Let_def)

lemma upt_add_Suc: "[i..<i + Suc n] = i # [Suc i..<Suc i + n]"
  by (simp add: upt_conv_Cons)

lemma minimize_loop_correct:
  assumes "k < length (objects w)" and "m \<noteq> k"
    and "\<forall>x. n_conformers x = 2 \<longrightarrow> AlignMolConformers E x \<noteq> []"
  shows "\<exists>w' sim' rows cf. minimize_loop E m k i cs (w, sim, out) = Inr (w', sim', out @ rows) \<and>
     objects w' = (objects w)[k := (objects w ! k)\<lparr>conformers := cf\<rparr>] \<and>
     files w' = files w @
        map (sdf_entry (name (objects w ! m)) (objects w ! k))
          (enumerate i (minimized_geometries E sim cs)) \<and>
     sim_calls w' = sim_calls w @ concat (map calls_for cs) \<and>
     list_all2 (is_row E) [i..<i + length cs] rows"
  using assms
proof (induction cs arbitrary: w sim out i)
  case Nil
  have "objects w = (objects w)[k := (objects w ! k)\<lparr>conformers := conformers (objects w ! k)\<rparr>]"
    by simp
  then show ?case
    by (intro exI [of _ w] exI [of _ sim] exI [of _ "[]"]
        exI [of _ "conformers (objects w ! k)"]) simp
next
  case (Cons c cs)
  define sim1 where "sim1 = setPositions E c sim"
  define sim2 where "sim2 = minimizeEnergy E sim1"
  define mc where "mc = positions E sim2"
  define w1 where "w1 = w\<lparr>objects := (objects w)[k := (objects w ! k)\<lparr>conformers := Some [mc]\<rparr>],
            files := files w @ [sdf_entry (name (objects w ! m)) (objects w ! k) (i, mc)],
            sim_calls := sim_calls w @ calls_for c\<rparr>"
  from minimize_conformer_step [OF Cons.prems(1,2,3) sim1_def sim2_def mc_def, of i out]
  obtain r where step: "minimize_conformer E m k i c (w, sim, out) =
      Inr (w1, sim2, out @ [[str_nat (Suc i), fmt_energy E (potential_energy E sim1),
                  fmt_energy E (potential_energy E sim2), fmt_rms E r]])"
    unfolding w1_def sdf_entry_def calls_for_def by auto
  let ?row = "[str_nat (Suc i), fmt_energy E (potential_energy E sim1),
                  fmt_energy E (potential_energy E sim2), fmt_rms E r]"
  have k1: "k < length (objects w1)" using Cons.prems(1) by (simp add: w1_def)
  from Cons.IH [OF k1 Cons.prems(2,3), of "Suc i" sim2 "out @ [?row]"]
  obtain w' sim' rows cf where
    run: "minimize_loop E m k (Suc i) cs (w1, sim2, out @ [?row]) = Inr (w', sim', (out @ [?row]) @ rows)"
    and ob: "objects w' = (objects w1)[k := (objects w1 ! k)\<lparr>conformers := cf\<rparr>]"
    and fi: "files w' = files w1 @
        map (sdf_entry (name (objects w1 ! m)) (objects w1 ! k))
          (enumerate (Suc i) (minimized_geometries E sim2 cs))"
    and ca: "sim_calls w' = sim_calls w1 @ concat (map calls_for cs)"
    and ro: "list_all2 (is_row E) [Suc i..<Suc i + length cs] rows"
    by blast
  have w1k: "objects w1 ! k = (objects w ! k)\<lparr>conformers := Some [mc]\<rparr>"
    using Cons.prems(1) by (simp add: w1_def)
  have w1m: "objects w1 ! m = objects w ! m"
    using Cons.prems(2) by (simp add: w1_def)
  have entry: "sdf_entry nm (cp\<lparr>conformers := x\<rparr>) = sdf_entry nm cp" for nm x
    and cp :: "('a, 'b) molecule"
    by (simp add: sdf_entry_def)
  have run': "minimize_loop E m k i (c # cs) (w, sim, out) = Inr (w', sim', out @ (?row # rows))"
    using step run by simp
  have ob': "objects w' = (objects w)[k := (objects w ! k)\<lparr>conformers := cf\<rparr>]"
    using ob w1k by (simp add: w1_def)
  have fi': "files w' = files w @
        map (sdf_entry (name (objects w ! m)) (objects w ! k))
          (enumerate i (minimized_geometries E sim (c # cs)))"
  proof -
    have "files w' = files w1 @
        map (sdf_entry (name (objects w ! m)) (objects w ! k))
          (enumerate (Suc i) (minimized_geometries E sim2 cs))"
      using fi unfolding w1k w1m entry .
    moreover have "files w1 =
        files w @ [sdf_entry (name (objects w ! m)) (objects w ! k) (i, mc)]"
      by (simp add: w1_def)
    ultimately show ?thesis
      by (simp add: Let_def sim1_def sim2_def mc_def)
  qed
  have ca': "sim_calls w' = sim_calls w @ concat (map calls_for (c # cs))"
    using ca by (simp add: w1_def)
  have "is_row E i ?row" unfolding is_row_def by blast
  moreover have "[i..<i + length (c # cs)] = i # [Suc i..<Suc i + length cs]"
    using upt_add_Suc [of i "length cs"] by simp
  ultimately have ro': "list_all2 (is_row E) [i..<i + length (c # cs)] (?row # rows)"
    using ro by (simp only: list_all2_Cons list.simps simp_thms)
  from run' ob' fi' ca' ro' show ?case by blast
qed

subsection \<open>One molecule\<close>

lemma generate_report_correct:
  assumes m: "m < length (objects w)" and cs: "conformers (objects w ! m) = Some cs"
    and al: "\<forall>x. n_conformers x = 2 \<longrightarrow> AlignMolConformers E x \<noteq> []"
    and nm: "nm = report_name E (objects w ! m)"
    and rc: "rc = (objects w ! m)\<lparr>name := nm\<rparr>"
  shows "\<exists>w' rows cf. generate_report E m w = Inr (w', header # rows) \<and>
     objects w' = (objects w)[m := rc] @ [rc\<lparr>conformers := cf\<rparr>] \<and>
     files w' = files w @
       map (sdf_entry nm rc) (enumerate 0 (minimized_geometries E (new_simulation E rc) cs)) @
       [(nm @ ''.csv'', Text (csv_text (header # rows)))] \<and>
     sim_calls w' = sim_calls w @ concat (map calls_for cs) \<and>
     list_all2 (is_row E) [0..<length cs] rows"
proof -
  let ?h0 = "objects w"
  let ?h1 = "(objects w)[m := rc]"
  let ?k = "length ?h0"
  let ?h2 = "?h1 @ [rc]"
  let ?w2 = "w\<lparr>objects := ?h2\<rparr>"
  have h1: "(if name (?h0 ! m) = []
             then ?h0[m := (?h0 ! m)\<lparr>name := hill_formula E (graph (?h0 ! m))\<rparr>]
             else ?h0) = ?h1"
    by (simp add: nm rc report_name_def)
  have h1m: "?h1 ! m = rc" using m by simp
  have h2m: "?h2 ! m = rc" using m by (simp add: nth_append)
  have h2k: "?h2 ! ?k = rc" by (simp add: nth_append)
  have rcs: "conformers rc = Some cs" using cs by (simp add: rc)
  have rnm: "name rc = nm" by (simp add: rc)
  have k2: "?k < length (objects ?w2)" by simp
  have mk: "m \<noteq> ?k" using m by simp
  from minimize_loop_correct [OF k2 mk al, of 0 cs "new_simulation E rc" "[header]"]
  obtain w' sim' rows cf where
    run: "minimize_loop E m ?k 0 cs (?w2, new_simulation E rc, [header]) =
            Inr (w', sim', [header] @ rows)"
    and ob: "objects w' = (objects ?w2)[?k := (objects ?w2 ! ?k)\<lparr>conformers := cf\<rparr>]"
    and fi: "files w' = files ?w2 @
        map (sdf_entry (name (objects ?w2 ! m)) (objects ?w2 ! ?k))
          (enumerate 0 (minimized_geometries E (new_simulation E rc) cs))"
    and ca: "sim_calls w' = sim_calls ?w2 @ concat (map calls_for cs)"
    and ro: "list_all2 (is_row E) [0..<0 + length cs] rows"
    by blast
  have ob': "objects w' = ?h1 @ [rc\<lparr>conformers := cf\<rparr>]"
    using ob h2k by (simp add: list_update_append)
  have wm: "objects w' ! m = rc"
    using m by (simp add: ob' nth_append)
  have fi': "files w' = files w @
        map (sdf_entry nm rc) (enumerate 0 (minimized_geometries E (new_simulation E rc) cs))"
    using fi h2m h2k rnm by simp
  have ca': "sim_calls w' = sim_calls w @ concat (map calls_for cs)"
    using ca by simp
  have "generate_report E m w =
      Inr (w'\<lparr>files := files w' @ [(name (objects w' ! m) @ ''.csv'', Text (csv_text (header # rows)))]\<rparr>,
           header # rows)"
    unfolding generate_report_def Let_def Molecule_copy_def h1
    using run h2m rcs by (simp add: h1m)
  then show ?thesis
    using ob' fi' ca' ro wm rnm
    by (intro exI [of _ "w'\<lparr>files := files w' @ [(name (objects w' ! m) @ ''.csv'', Text (csv_text (header # rows)))]\<rparr>"]
        exI [of _ rows] exI [of _ cf]) simp
qed



lemma calls_for_eq:
  "calls_for = (\<lambda>c. [SetPositions c, GetState_energy, MinimizeEnergy, GetState_energy_positions])"
  by (rule ext) (simp add: calls_for_def)

lemma map_fst_sdf_entry:
  "map fst (map (sdf_entry nm cp) (enumerate i mcs)) =
   map (\<lambda>j. nm @ ''_conf'' @ str_nat (Suc j) @ ''_minimized.sdf'') [i..<i + length mcs]"
  by (induction mcs arbitrary: i) (simp_all add: sdf_entry_def upt_conv_Cons del: upt_Suc)

lemma sdf_paths:
  "map fst (map (sdf_entry nm cp) (enumerate 0 mcs)) =
   map (\<lambda>j. nm @ ''_conf'' @ str_nat j @ ''_minimized.sdf'') [1..<Suc (length mcs)]"
proof -
  have "map fst (map (sdf_entry nm cp) (enumerate 0 mcs)) =
      map (\<lambda>j. nm @ ''_conf'' @ str_nat (Suc j) @ ''_minimized.sdf'') [0..<length mcs]"
    using map_fst_sdf_entry [of nm cp 0 mcs] by simp
  also have "\<dots> =
      map (\<lambda>j. nm @ ''_conf'' @ str_nat j @ ''_minimized.sdf'') (map Suc [0..<length mcs])"
    by (simp add: comp_def)
  also have "map Suc [0..<length mcs] = [1..<Suc (length mcs)]"
    by (simp only: map_Suc_upt One_nat_def)
  finally show ?thesis .
qed

lemma map_snd_sdf_entry:
  "map snd (map (sdf_entry nm cp) (enumerate i mcs)) =
   map (\<lambda>mc. SDF (cp\<lparr>conformers := Some [mc]\<rparr>)) mcs"
  by (induction mcs arbitrary: i) (simp_all add: sdf_entry_def)

lemma example_aligner:
  "\<forall>x. n_conformers x = 2 \<longrightarrow> AlignMolConformers example_collaborators x \<noteq> []"
  by (auto simp: example_collaborators_def n_conformers_def split: option.splits list.splits)


lemma example_molecule:
  "0 < length (objects example_world)"
  "conformers (objects example_world ! 0) = Some [8, 6]"
  by (simp_all add: example_world_def)

lemma report_name_idem [simp]:
  "report_name E (r\<lparr>name := report_name E r\<rparr>) = report_name E r"
  by (simp add: report_name_def)

lemma generate_reports_correct:
  assumes "\<forall>m\<in>set molecules. m < length (objects w) \<and> conformers (objects w ! m) \<noteq> None"
    and al: "\<forall>x. n_conformers x = 2 \<longrightarrow> AlignMolConformers E x \<noteq> []"
  shows "\<exists>w'. generate_reports E molecules w = Inr w' \<and>
     length (objects w) \<le> length (objects w') \<and>
     (\<forall>b<length (objects w). objects w' ! b =
        (if b \<in> set molecules then (objects w ! b)\<lparr>name := report_name E (objects w ! b)\<rparr>
         else objects w ! b))"
  using assms(1)
proof (induction molecules arbitrary: w)
  case Nil
  then show ?case by simp
next
  case (Cons m rest)
  let ?r = "objects w ! m"
  let ?rc = "?r\<lparr>name := report_name E ?r\<rparr>"
  have m: "m < length (objects w)" using Cons.prems by simp
  from Cons.prems obtain cs where cs: "conformers ?r = Some cs" by auto
  from generate_report_correct [OF m cs al refl refl]
  obtain w1 rows cf where run: "generate_report E m w = Inr (w1, header # rows)"
    and ob: "objects w1 = (objects w)[m := ?rc] @ [?rc\<lparr>conformers := cf\<rparr>]"
    by blast
  have len1: "length (objects w1) = Suc (length (objects w))" by (simp add: ob)
  have at1: "objects w1 ! b = (if b = m then ?rc else objects w ! b)"
    if "b < length (objects w)" for b
    using that by (simp add: ob nth_append nth_list_update)
  have p: "\<forall>m'\<in>set rest. m' < length (objects w1) \<and> conformers (objects w1 ! m') \<noteq> None"
  proof
    fix m' assume "m' \<in> set rest"
    with Cons.prems have lt: "m' < length (objects w)"
      and c: "conformers (objects w ! m') \<noteq> None" by simp_all
    from at1 [OF lt] c cs have "conformers (objects w1 ! m') \<noteq> None" by auto
    with lt len1 show "m' < length (objects w1) \<and> conformers (objects w1 ! m') \<noteq> None"
      by simp
  qed
  from Cons.IH [OF p]
  obtain w' where run': "generate_reports E rest w1 = Inr w'"
    and len': "length (objects w1) \<le> length (objects w')"
    and at': "\<forall>b<length (objects w1). objects w' ! b =
        (if b \<in> set rest then (objects w1 ! b)\<lparr>name := report_name E (objects w1 ! b)\<rparr>
         else objects w1 ! b)"
    by blast
  have "generate_reports E (m # rest) w = Inr w'" using run run' by simp
  moreover have "length (objects w) \<le> length (objects w')" using len' len1 by simp
  moreover have "\<forall>b<length (objects w). objects w' ! b =
        (if b \<in> set (m # rest) then (objects w ! b)\<lparr>name := report_name E (objects w ! b)\<rparr>
         else objects w ! b)"
  proof (intro allI impI)
    fix b assume b: "b < length (objects w)"
    then have "b < length (objects w1)" using len1 by simp
    with at' have "objects w' ! b =
        (if b \<in> set rest then (objects w1 ! b)\<lparr>name := report_name E (objects w1 ! b)\<rparr>
         else objects w1 ! b)" by blast
    then show "objects w' ! b =
        (if b \<in> set (m # rest) then (objects w ! b)\<lparr>name := report_name E (objects w ! b)\<rparr>
         else objects w ! b)"
      using at1 [OF b] by auto
  qed
  ultimately show ?case by blast
qed

subsection \<open>The example report, computed\<close>

text \<open>
  The report of the example record, evaluated step by step: the record is named by its
  hill formula, the copy is the second object of the store, the two structure files hold
  the halved coordinates 4 and 3, and the CSV text has the header line and two data lines.
\<close>

lemma str_nat_small: "str_nat (Suc 0) = ''1''" "str_nat (Suc (Suc 0)) = ''2''"
  "str_nat 3 = ''3''" "str_nat 4 = ''4''" "str_nat 6 = ''6''" "str_nat 8 = ''8''"
  by code_simp+

lemma example_report_run:
  "generate_report example_collaborators 0 example_world =
     Inr (\<lparr>objects =
             [\<lparr>name = ''C2H6O'', graph = ''C2H6O'', conformers = Some [8, 6]\<rparr>,
              \<lparr>name = ''C2H6O'', graph = ''C2H6O'', conformers = Some [3]\<rparr>],
           files =
             [(''C2H6O_conf1_minimized.sdf'',
               SDF \<lparr>name = ''C2H6O'', graph = ''C2H6O'', conformers = Some [4]\<rparr>),
              (''C2H6O_conf2_minimized.sdf'',
               SDF \<lparr>name = ''C2H6O'', graph = ''C2H6O'', conformers = Some [3]\<rparr>),
              (''C2H6O.csv'',
               Text (join [comma] header @ [newline] @
                     ''1,8.000,4.000,4.000'' @ [newline] @
                     ''2,6.000,3.000,3.000'' @ [newline]))],
           sim_calls =
             [SetPositions 8, GetState_energy, MinimizeEnergy, GetState_energy_positions,
              SetPositions 6, GetState_energy, MinimizeEnergy, GetState_energy_positions]\<rparr>,
          [header,
           [''1'', ''8.000'', ''4.000'', ''4.000''],
           [''2'', ''6.000'', ''3.000'', ''3.000'']])"
  by (simp add: generate_report_def minimize_conformer_def call_defs Molecule_copy_def Let_def
      example_collaborators_def example_world_def heap_add_conformer_def add_conformer_def
      clear_conformers_def csv_text_def str_nat_small comma_def)

subsection \<open>Rows, files and the CSV text\<close>



subsection \<open>Order of the calls on the simulation handle\<close>

text \<open>
  C5. The calls on the simulation handle are, for each conformer in turn: the coordinates
  are loaded, the initial potential energy is queried, the minimizer is invoked, and only
  then the minimized energy and coordinates are queried.
\<close>

theorem simulation_call_order:
  assumes "molecule < length (objects w)"
    and "conformers (objects w ! molecule) = Some cs"
    and "\<forall>x. n_conformers x = 2 \<longrightarrow> AlignMolConformers E x \<noteq> []"
  shows "\<exists>w' output. generate_report E molecule w = Inr (w', output) \<and>
     sim_calls w' = sim_calls w @
       concat (map (\<lambda>c. [SetPositions c, GetState_energy, MinimizeEnergy,
                          GetState_energy_positions]) cs)"
  using generate_report_correct [OF assms refl refl]
  unfolding calls_for_eq by blast

text \<open>The example world satisfies the hypotheses of C5.\<close>

theorem simulation_call_order_witness:
  "\<exists>w' output. generate_report example_collaborators 0 example_world = Inr (w', output) \<and>
     sim_calls w' = sim_calls example_world @
       concat (map (\<lambda>c. [SetPositions c, GetState_energy, MinimizeEnergy,
                          GetState_energy_positions]) [8, 6])"
  by (rule simulation_call_order [OF example_molecule example_aligner])

subsection \<open>Names of the output files\<close>

text \<open>
  C6. The name \<open>nm\<close> of the report is the hill formula when the declared name is empty and
  the declared name otherwise; the record carries that name after the report. The files
  written are \<open>nm_conf1_minimized.sdf\<close>, ..., \<open>nm_confN_minimized.sdf\<close> with the 1-based
  conformer index, followed by \<open>nm.csv\<close>: all use the same name, and no path is empty.
\<close>

theorem output_file_names:
  assumes "molecule < length (objects w)"
    and "conformers (objects w ! molecule) = Some cs"
    and "\<forall>x. n_conformers x = 2 \<longrightarrow> AlignMolConformers E x \<noteq> []"
    and "nm = (if name (objects w ! molecule) = []
               then hill_formula E (graph (objects w ! molecule))
               else name (objects w ! molecule))"
  shows "\<exists>w' output. generate_report E molecule w = Inr (w', output) \<and>
     name (objects w' ! molecule) = nm \<and>
     take (length (files w)) (files w') = files w \<and>
     map fst (drop (length (files w)) (files w')) =
       map (\<lambda>j. nm @ ''_conf'' @ str_nat j @ ''_minimized.sdf'') [1..<Suc (length cs)] @
       [nm @ ''.csv''] \<and>
     (\<forall>p\<in>set (map fst (drop (length (files w)) (files w'))). p \<noteq> [])"
proof -
  have nm: "nm = report_name E (objects w ! molecule)"
    using assms(4) by (simp add: report_name_def)
  define rc where "rc = (objects w ! molecule)\<lparr>name := nm\<rparr>"
  define sdfs where "sdfs = map (sdf_entry nm rc)
      (enumerate 0 (minimized_geometries E (new_simulation E rc) cs))"
  from generate_report_correct [OF assms(1-3) nm rc_def]
  obtain w' rows cf where run: "generate_report E molecule w = Inr (w', header # rows)"
    and ob: "objects w' = (objects w)[molecule := rc] @ [rc\<lparr>conformers := cf\<rparr>]"
    and fi: "files w' = files w @ sdfs @ [(nm @ ''.csv'', Text (csv_text (header # rows)))]"
    unfolding sdfs_def by blast
  have nmw: "name (objects w' ! molecule) = nm"
    using assms(1) by (simp add: ob nth_append rc_def)
  have tk: "take (length (files w)) (files w') = files w" by (simp add: fi)
  have "map fst sdfs =
      map (\<lambda>j. nm @ ''_conf'' @ str_nat j @ ''_minimized.sdf'') [1..<Suc (length cs)]"
    unfolding sdfs_def using sdf_paths [of nm rc "minimized_geometries E (new_simulation E rc) cs"]
    by simp
  then have paths: "map fst (drop (length (files w)) (files w')) =
       map (\<lambda>j. nm @ ''_conf'' @ str_nat j @ ''_minimized.sdf'') [1..<Suc (length cs)] @
       [nm @ ''.csv'']"
    by (simp add: fi)
  have ne: "\<forall>p\<in>set (map fst (drop (length (files w)) (files w'))). p \<noteq> []"
    unfolding paths by auto
  from run nmw tk paths ne show ?thesis by blast
qed

text \<open>
  The example record has an empty name and the graph \<open>C2H6O\<close>, whose hill formula names
  its files.
\<close>

theorem output_file_names_witness:
  "\<exists>w' output. generate_report example_collaborators 0 example_world = Inr (w', output) \<and>
     name (objects w' ! 0) = ''C2H6O'' \<and>
     take (length (files example_world)) (files w') = files example_world \<and>
     map fst (drop (length (files example_world)) (files w')) =
       map (\<lambda>j. ''C2H6O'' @ ''_conf'' @ str_nat j @ ''_minimized.sdf'')
         [1..<Suc (length [8, 6 :: nat])] @
       [''C2H6O'' @ ''.csv''] \<and>
     (\<forall>p\<in>set (map fst (drop (length (files example_world)) (files w'))). p \<noteq> [])"
  by (rule output_file_names [OF example_molecule example_aligner])
    (simp add: example_world_def example_collaborators_def)

subsection \<open>Content of the minimized-structure files\<close>

text \<open>
  C9. Every minimized-structure file holds the working copy with exactly one conformer:
  the \<open>j\<close>-th file holds the minimized geometry that the simulation handle gave for the
  \<open>j\<close>-th conformer of the record.
\<close>

theorem minimized_files_single_conformer:
  assumes "molecule < length (objects w)"
    and "conformers (objects w ! molecule) = Some cs"
    and "\<forall>x. n_conformers x = 2 \<longrightarrow> AlignMolConformers E x \<noteq> []"
    and "rc = (objects w ! molecule)\<lparr>name := report_name E (objects w ! molecule)\<rparr>"
  shows "\<exists>w' output sdfs csv. generate_report E molecule w = Inr (w', output) \<and>
     files w' = files w @ sdfs @ [csv] \<and>
     map snd sdfs =
       map (\<lambda>mc. SDF (rc\<lparr>conformers := Some [mc]\<rparr>))
         (minimized_geometries E (new_simulation E rc) cs) \<and>
     length sdfs = length cs \<and>
     (\<forall>f\<in>set sdfs. \<exists>mol. snd f = SDF mol \<and> n_conformers mol = 1)"
proof -
  define sdfs where "sdfs = map (sdf_entry (report_name E (objects w ! molecule)) rc)
      (enumerate 0 (minimized_geometries E (new_simulation E rc) cs))"
  from generate_report_correct [OF assms(1-3) refl assms(4)]
  obtain w' rows where run: "generate_report E molecule w = Inr (w', header # rows)"
    and fi: "files w' = files w @ sdfs @
        [(report_name E (objects w ! molecule) @ ''.csv'', Text (csv_text (header # rows)))]"
    unfolding sdfs_def by blast
  have contents: "map snd sdfs =
       map (\<lambda>mc. SDF (rc\<lparr>conformers := Some [mc]\<rparr>))
         (minimized_geometries E (new_simulation E rc) cs)"
    unfolding sdfs_def by (rule map_snd_sdf_entry)
  have len: "length sdfs = length cs" by (simp add: sdfs_def)
  have one: "\<forall>f\<in>set sdfs. \<exists>mol. snd f = SDF mol \<and> n_conformers mol = 1"
    by (auto simp: sdfs_def sdf_entry_def n_conformers_def)
  from run fi contents len one show ?thesis by blast
qed

text \<open>The example world satisfies the hypotheses of C9.\<close>

theorem minimized_files_single_conformer_witness:
  "\<exists>w' output sdfs csv.
     generate_report example_collaborators 0 example_world = Inr (w', output) \<and>
     files w' = files example_world @ sdfs @ [csv] \<and>
     map snd sdfs =
       map (\<lambda>mc. SDF (\<lparr>name = ''C2H6O'', graph = ''C2H6O'', conformers = Some [8, 6]\<rparr>
                        \<lparr>conformers := Some [mc]\<rparr>))
         (minimized_geometries example_collaborators
            (new_simulation example_collaborators
               \<lparr>name = ''C2H6O'', graph = ''C2H6O'', conformers = Some [8, 6]\<rparr>) [8, 6]) \<and>
     length sdfs = length [8, 6 :: nat] \<and>
     (\<forall>f\<in>set sdfs. \<exists>mol. snd f = SDF mol \<and> n_conformers mol = 1)"
  by (rule minimized_files_single_conformer [OF example_molecule example_aligner])
    (simp add: example_world_def example_collaborators_def report_name_def)

subsection \<open>What the report generator changes in the collated records\<close>

text \<open>
  C7 (as amended). Running the report generator over the collated records changes none of
  their conformers and none of their graphs, and it changes a record in one way only: a
  record that is reported on and has an empty name gets its hill formula as its name
  (lines 136-137). Every other record of the store stays as it was.
\<close>

theorem reports_change_only_empty_names:
  assumes "\<forall>m\<in>set molecules. m < length (objects w) \<and> conformers (objects w ! m) \<noteq> None"
    and "\<forall>x. n_conformers x = 2 \<longrightarrow> AlignMolConformers E x \<noteq> []"
  shows "\<exists>w'. generate_reports E molecules w = Inr w' \<and>
     (\<forall>b<length (objects w).
        conformers (objects w' ! b) = conformers (objects w ! b) \<and>
        graph (objects w' ! b) = graph (objects w ! b) \<and>
        objects w' ! b =
          (if b \<in> set molecules \<and> name (objects w ! b) = []
           then (objects w ! b)\<lparr>name := hill_formula E (graph (objects w ! b))\<rparr>
           else objects w ! b))"
proof -
  from generate_reports_correct [OF assms]
  obtain w' where run: "generate_reports E molecules w = Inr w'"
    and at: "\<forall>b<length (objects w). objects w' ! b =
        (if b \<in> set molecules then (objects w ! b)\<lparr>name := report_name E (objects w ! b)\<rparr>
         else objects w ! b)"
    by blast
  have "\<forall>b<length (objects w).
        conformers (objects w' ! b) = conformers (objects w ! b) \<and>
        graph (objects w' ! b) = graph (objects w ! b) \<and>
        objects w' ! b =
          (if b \<in> set molecules \<and> name (objects w ! b) = []
           then (objects w ! b)\<lparr>name := hill_formula E (graph (objects w ! b))\<rparr>
           else objects w ! b)"
    using at by (auto simp: report_name_def)
  with run show ?thesis by blast
qed
text \<open>The example world satisfies the hypotheses of C7.\<close>

theorem reports_change_only_empty_names_witness:
  "\<exists>w'. generate_reports example_collaborators [0] example_world = Inr w' \<and>
     (\<forall>b<length (objects example_world).
        conformers (objects w' ! b) = conformers (objects example_world ! b) \<and>
        graph (objects w' ! b) = graph (objects example_world ! b) \<and>
        objects w' ! b =
          (if b \<in> set [0] \<and> name (objects example_world ! b) = []
           then (objects example_world ! b)
                  \<lparr>name := hill_formula example_collaborators (graph (objects example_world ! b))\<rparr>
           else objects example_world ! b))"
  by (rule reports_change_only_empty_names [OF _ example_aligner])
    (simp add: example_world_def)
text \<open>
  The claim C7 as it was stated (no collated record is mutated) fails on the example world:
  its only record has an empty name, and after the report it is a different record, named
  by its hill formula.
\<close>

theorem report_renames_collated_record:
  "\<exists>w'. generate_reports example_collaborators [0] example_world = Inr w' \<and>
     objects w' ! 0 \<noteq> objects example_world ! 0 \<and>
     name (objects example_world ! 0) = [] \<and> name (objects w' ! 0) = ''C2H6O''"
proof -
  have p: "\<forall>m\<in>set [0]. m < length (objects example_world) \<and>
      conformers (objects example_world ! m) \<noteq> None"
    by (simp add: example_world_def)
  from generate_reports_correct [OF p example_aligner]
  obtain w' where run: "generate_reports example_collaborators [0] example_world = Inr w'"
    and at: "\<forall>b<length (objects example_world). objects w' ! b =
        (if b \<in> set [0]
         then (objects example_world ! b)
                \<lparr>name := report_name example_collaborators (objects example_world ! b)\<rparr>
         else objects example_world ! b)"
    by blast
  have "0 < length (objects example_world)" by (simp add: example_world_def)
  with at have "objects w' ! 0 = (objects example_world ! 0)
      \<lparr>name := report_name example_collaborators (objects example_world ! 0)\<rparr>"
    by simp
  then have "objects w' ! 0 = \<lparr>name = ''C2H6O'', graph = ''C2H6O'', conformers = Some [8, 6]\<rparr>"
    by (simp add: example_world_def example_collaborators_def report_name_def)
  with run show ?thesis by (auto simp: example_world_def)
qed
subsection \<open>The conformers of the collated record\<close>

text \<open>
  C10. The working copy is a new object, made before the loop, and every step of the loop
  changes the store at the working copy only. So after the report of one molecule the
  conformers of the collated record are the same sequence as before (count, order and
  coordinates), as are the conformers and the graph of every other record.
\<close>

theorem collated_conformers_unchanged:
  assumes "molecule < length (objects w)"
    and "conformers (objects w ! molecule) = Some cs"
    and "\<forall>x. n_conformers x = 2 \<longrightarrow> AlignMolConformers E x \<noteq> []"
  shows "\<exists>w' output. generate_report E molecule w = Inr (w', output) \<and>
     length (objects w') = Suc (length (objects w)) \<and>
     conformers (objects w' ! molecule) = Some cs \<and>
     (\<forall>b<length (objects w).
        conformers (objects w' ! b) = conformers (objects w ! b) \<and>
        graph (objects w' ! b) = graph (objects w ! b)) \<and>
     fst (Molecule_copy molecule (objects w)) = length (objects w) \<and>
     (\<forall>i c st st' b.
        minimize_conformer E molecule (length (objects w)) i c st = Inr st' \<and>
        b \<noteq> length (objects w) \<longrightarrow>
        objects (fst st') ! b = objects (fst st) ! b)"
proof -
  let ?r = "objects w ! molecule"
  let ?rc = "?r\<lparr>name := report_name E ?r\<rparr>"
  from generate_report_correct [OF assms refl refl]
  obtain w' rows cf where run: "generate_report E molecule w = Inr (w', header # rows)"
    and ob: "objects w' = (objects w)[molecule := ?rc] @ [?rc\<lparr>conformers := cf\<rparr>]"
    by blast
  have len: "length (objects w') = Suc (length (objects w))" by (simp add: ob)
  have at: "objects w' ! b = (if b = molecule then ?rc else objects w ! b)"
    if "b < length (objects w)" for b
    using that by (simp add: ob nth_append nth_list_update)
  have same: "\<forall>b<length (objects w).
        conformers (objects w' ! b) = conformers (objects w ! b) \<and>
        graph (objects w' ! b) = graph (objects w ! b)"
    using at by simp
  have mol: "conformers (objects w' ! molecule) = Some cs"
    using at [OF assms(1)] assms(2) by simp
  have fresh: "fst (Molecule_copy molecule (objects w)) = length (objects w)"
    by (simp add: Molecule_copy_def)
  have frame: "\<forall>i c st st' b.
        minimize_conformer E molecule (length (objects w)) i c st = Inr st' \<and>
        b \<noteq> length (objects w) \<longrightarrow>
        objects (fst st') ! b = objects (fst st) ! b"
  proof (intro allI impI)
    fix i c st st' b
    assume a: "minimize_conformer E molecule (length (objects w)) i c st = Inr st' \<and>
        b \<noteq> length (objects w)"
    then have "minimize_conformer E molecule (length (objects w)) i c st = Inr st'"
      and "b \<noteq> length (objects w)" by simp_all
    then show "objects (fst st') ! b = objects (fst st) ! b"
      by (rule minimize_conformer_frame)
  qed
  show ?thesis
  proof (intro exI conjI)
    show "generate_report E molecule w = Inr (w', header # rows)" by (rule run)
    show "length (objects w') = Suc (length (objects w))" by (rule len)
    show "conformers (objects w' ! molecule) = Some cs" by (rule mol)
    show "\<forall>b<length (objects w).
        conformers (objects w' ! b) = conformers (objects w ! b) \<and>
        graph (objects w' ! b) = graph (objects w ! b)" by (rule same)
    show "fst (Molecule_copy molecule (objects w)) = length (objects w)" by (rule fresh)
    show "\<forall>i c st st' b.
        minimize_conformer E molecule (length (objects w)) i c st = Inr st' \<and>
        b \<noteq> length (objects w) \<longrightarrow>
        objects (fst st') ! b = objects (fst st) ! b" by (rule frame)
  qed
qed
text \<open>The example world satisfies the hypotheses of C10.\<close>

theorem collated_conformers_unchanged_witness:
  "\<exists>w' output. generate_report example_collaborators 0 example_world = Inr (w', output) \<and>
     length (objects w') = Suc (length (objects example_world)) \<and>
     conformers (objects w' ! 0) = Some [8, 6] \<and>
     (\<forall>b<length (objects example_world).
        conformers (objects w' ! b) = conformers (objects example_world ! b) \<and>
        graph (objects w' ! b) = graph (objects example_world ! b)) \<and>
     fst (Molecule_copy 0 (objects example_world)) = length (objects example_world) \<and>
     (\<forall>i c st st' b.
        minimize_conformer example_collaborators 0 (length (objects example_world)) i c st =
          Inr st' \<and>
        b \<noteq> length (objects example_world) \<longrightarrow>
        objects (fst st') ! b = objects (fst st) ! b)"
  by (rule collated_conformers_unchanged [OF example_molecule example_aligner])

end
